theory Spec2Isabelle
  imports Main "HOL-Library.Sublist"
begin

section \<open>Python text\<close>

text \<open>
  A Python \<open>str\<close> is a sequence of Unicode code points, so the text handled by
  \<open>scripts/strip_license_header.py\<close> is a list of code points, each a natural number.
  An Isabelle \<open>char\<close> is a byte and cannot hold U+2028, which the line splitter of
  Python treats as a line boundary.
\<close>

type_synonym codepoint = nat
type_synonym str = "codepoint list"

text \<open>The code points of an ASCII literal of the source, such as \<open>'/**'\<close>.\<close>

definition py_str :: "string \<Rightarrow> str" where
  "py_str s = map of_char s"

text \<open>
  The line boundaries of \<open>str.splitlines\<close>: LF, VT, FF, CR, FS, GS, RS, NEL (U+0085),
  LINE SEPARATOR (U+2028) and PARAGRAPH SEPARATOR (U+2029).
\<close>

definition is_linebreak :: "codepoint \<Rightarrow> bool" where
  "is_linebreak c \<longleftrightarrow>
     c = 10 \<or> c = 11 \<or> c = 12 \<or> c = 13 \<or> c = 28 \<or> c = 29 \<or> c = 30 \<or>
     c = 133 \<or> c = 8232 \<or> c = 8233"

text \<open>
  The characters for which \<open>str.isspace\<close> holds, which are the ones removed by
  \<open>str.lstrip()\<close> called with no argument: TAB, the line boundaries below U+0080, US
  (U+001F), SPACE, NEL, NO-BREAK SPACE (U+00A0), U+1680, U+2000 to U+200A, U+2028, U+2029,
  U+202F, U+205F and U+3000.
\<close>

definition is_space :: "codepoint \<Rightarrow> bool" where
  "is_space c \<longleftrightarrow>
     (9 \<le> c \<and> c \<le> 13) \<or> (28 \<le> c \<and> c \<le> 32) \<or> c = 133 \<or> c = 160 \<or> c = 5760 \<or>
     (8192 \<le> c \<and> c \<le> 8202) \<or> c = 8232 \<or> c = 8233 \<or> c = 8239 \<or> c = 8287 \<or>
     c = 12288"

text \<open>\<open>s.lstrip()\<close>: leading whitespace is removed, from the start only.\<close>

definition lstrip :: "str \<Rightarrow> str" where
  "lstrip s = dropWhile is_space s"

text \<open>\<open>s.startswith(p)\<close>.\<close>

definition startswith :: "str \<Rightarrow> str \<Rightarrow> bool" where
  "startswith s p \<longleftrightarrow> take (length p) s = p"

text \<open>\<open>sub in s\<close>: \<open>sub\<close> occurs in \<open>s\<close> as a contiguous substring.\<close>

fun contains :: "str \<Rightarrow> str \<Rightarrow> bool" where
  "contains sub [] \<longleftrightarrow> sub = []"
| "contains sub (c # cs) \<longleftrightarrow> startswith (c # cs) sub \<or> contains sub cs"

text \<open>
  \<open>s.splitlines(keepends=True)\<close>: scan to the next line boundary, take the terminator
  with the line (CR LF is one terminator), and go on behind it. A last line with no
  terminator is a line of its own; the empty text has no line.
\<close>

function splitlines :: "str \<Rightarrow> str list" where
  "splitlines s =
     (if s = [] then []
      else
        (let body = takeWhile (\<lambda>c. \<not> is_linebreak c) s;
             rest = dropWhile (\<lambda>c. \<not> is_linebreak c) s
         in case rest of
              [] \<Rightarrow> [body]
            | [t] \<Rightarrow> [body @ [t]]
            | t # u # rest' \<Rightarrow>
                if t = 13 \<and> u = 10 then (body @ [t, u]) # splitlines rest'
                else (body @ [t]) # splitlines (u # rest')))"
  by pat_completeness auto
termination
proof (relation "measure length")
  show "wf (measure length)" by simp
next
  fix s :: str and body rest t r u rest'
  assume "rest = dropWhile (\<lambda>c. \<not> is_linebreak c) s" "rest = t # r" "r = u # rest'"
  then have "length (t # u # rest') \<le> length s"
    using length_dropWhile_le [of "\<lambda>c. \<not> is_linebreak c" s] by simp
  then show "(rest', s) \<in> measure length" by simp
next
  fix s :: str and body rest t r u rest'
  assume "rest = dropWhile (\<lambda>c. \<not> is_linebreak c) s" "rest = t # r" "r = u # rest'"
  then have "length (t # u # rest') \<le> length s"
    using length_dropWhile_le [of "\<lambda>c. \<not> is_linebreak c" s] by simp
  then show "(u # rest', s) \<in> measure length" by simp
qed

declare splitlines.simps [simp del]

section \<open>The filter\<close>

text \<open>
  \<open>process\<close> of \<open>scripts/strip_license_header.py\<close>. \<open>lines[0]\<close> is read only when there
  are at least 12 lines.
\<close>

definition process :: "str \<Rightarrow> str" where
  "process data =
     (let lines = splitlines data in
      if length lines \<ge> 12 then
        (let first12 = concat (take 12 lines);
             line1_stripped = lstrip (lines ! 0)
         in if startswith line1_stripped (py_str ''/**'')
               \<and> contains (py_str ''Scenery Editor X'') first12
               \<and> contains (py_str ''*/'') first12
            then concat (drop 12 lines)
            else data)
      else data)"

text \<open>
  The condition under which \<open>process\<close> takes its first \<open>return\<close>, the one that drops the
  first 12 lines: at least 12 lines, and the three checks of the \<open>if\<close> on the first line
  and on \<open>first12\<close>.
\<close>

definition strips :: "str \<Rightarrow> bool" where
  "strips data \<longleftrightarrow>
     (let lines = splitlines data in
      length lines \<ge> 12
      \<and> startswith (lstrip (lines ! 0)) (py_str ''/**'')
      \<and> contains (py_str ''Scenery Editor X'') (concat (take 12 lines))
      \<and> contains (py_str ''*/'') (concat (take 12 lines)))"

text \<open>
  The left-trim as the specification words it, to be compared with \<open>lstrip\<close>: only spaces
  and tabs are removed from the start of the line.
\<close>

definition lstrip_spaces_tabs :: "str \<Rightarrow> str" where
  "lstrip_spaces_tabs s = dropWhile (\<lambda>c. c = 32 \<or> c = 9) s"

section \<open>Reading the input and writing the output\<close>

text \<open>
  The exceptions that reading can raise. \<open>except Exception\<close> catches the subclasses of
  \<open>Exception\<close>; \<open>KeyboardInterrupt\<close> and \<open>SystemExit\<close> derive from \<open>BaseException\<close> only
  and pass through it.
\<close>

datatype py_exception =
    FileNotFoundError
  | PermissionError
  | IsADirectoryError
  | OSError
  | ValueError
  | MemoryError
  | KeyboardInterrupt
  | SystemExit

fun is_Exception :: "py_exception \<Rightarrow> bool" where
  "is_Exception KeyboardInterrupt = False"
| "is_Exception SystemExit = False"
| "is_Exception _ = True"

text \<open>
  What the script sees of its environment: \<open>sys.argv\<close>; for each path the outcome of
  \<open>Path(p).read_text(encoding="utf-8", errors="replace")\<close>, which is the decoded text
  (undecodable bytes already replaced) or an exception; the outcome of
  \<open>sys.stdin.read()\<close>; and what has been written to standard output.
\<close>

record world =
  argv :: "str list"
  read_text :: "str \<Rightarrow> py_exception + str"
  stdin_read :: "py_exception + str"
  stdout :: str

text \<open>\<open>_read_input\<close>: the result is the text, or the exception that leaves the function.\<close>

definition read_input :: "world \<Rightarrow> py_exception + str" where
  "read_input w =
     (if length (argv w) > 1 then
        (case read_text w (argv w ! 1) of
           Inr s \<Rightarrow> Inr s
         | Inl e \<Rightarrow> if is_Exception e then Inr [] else Inl e)
      else stdin_read w)"

text \<open>
  \<open>main\<close>: the outcome (\<open>Inr ()\<close> is a normal return, after which the interpreter exits
  with status 0) and the world with \<open>process data\<close> appended to standard output.
\<close>

definition main :: "world \<Rightarrow> (py_exception + unit) \<times> world" where
  "main w =
     (case read_input w of
        Inl e \<Rightarrow> (Inl e, w)
      | Inr data \<Rightarrow> (Inr (), w\<lparr>stdout := stdout w @ process data\<rparr>))"

section \<open>Example inputs\<close>

text \<open>
  A 12-line banner: \<open>/**\<close> on line 1, the product name on line 2, \<open>*/\<close> on line 5, and
  seven empty lines.
\<close>

definition banner_A :: str where
  "banner_A =
     py_str ''/**'' @ [10] @ py_str '' * Scenery Editor X'' @ [10] @ py_str '' *'' @ [10]
     @ py_str '' * License'' @ [10] @ py_str '' */'' @ [10] @ [10, 10, 10, 10, 10, 10, 10]"

text \<open>The banner followed by three lines of code.\<close>

definition scenario_A :: str where
  "scenario_A =
     banner_A @ py_str ''int a;'' @ [10] @ py_str ''int b;'' @ [10] @ py_str ''int c;'' @ [10]"

text \<open>The same banner followed by other text, with no final newline.\<close>

definition scenario_A_other :: str where
  "scenario_A_other = banner_A @ py_str ''*/ /** Scenery Editor X'' @ [13, 10] @ py_str ''end''"

text \<open>Eleven lines: the banner never completes.\<close>

definition scenario_B :: str where
  "scenario_B =
     py_str ''/**'' @ [10] @ py_str '' * Scenery Editor X'' @ [10] @ py_str '' */'' @ [10]
     @ [10, 10, 10, 10, 10, 10, 10] @ py_str ''int a;''"


text \<open>Twelve lines with both substrings, whose first line is a \<open>//\<close> comment.\<close>

definition line_comment_input :: str where
  "line_comment_input =
     py_str ''// Scenery Editor X */'' @ [10] @ [10, 10, 10, 10, 10, 10, 10, 10, 10, 10, 10]
     @ py_str ''int a;'' @ [10]"

text \<open>A banner whose first line starts with NO-BREAK SPACE (U+00A0).\<close>

definition nbsp_banner :: str where
  "nbsp_banner =
     [160] @ py_str ''/** Scenery Editor X */'' @ [10]
     @ [10, 10, 10, 10, 10, 10, 10, 10, 10, 10, 10] @ py_str ''rest''"

text \<open>A one-line banner padded to 12 lines, and two of them followed by \<open>x\<close>.\<close>

definition short_banner :: str where
  "short_banner =
     py_str ''/**Scenery Editor X*/'' @ [10] @ [10, 10, 10, 10, 10, 10, 10, 10, 10, 10, 10]"

definition double_banner :: str where
  "double_banner = short_banner @ short_banner @ py_str ''x''"

text \<open>
  A banner line ended by FORM FEED, then lines that consist of one terminator each:
  VT, U+2028, U+2029 and eight times FF. There is no LF and no CR in it.
\<close>

definition ff_banner :: str where
  "ff_banner =
     py_str ''/** Scenery Editor X */'' @ [12]
     @ [11, 8232, 8233, 12, 12, 12, 12, 12, 12, 12, 12] @ py_str ''rest''"

text \<open>First line \<open>/**/\<close>, the product name on line 2, ten empty lines, one line of code.\<close>

definition overlap_banner :: str where
  "overlap_banner =
     py_str ''/**/'' @ [10] @ py_str ''Scenery Editor X'' @ [10]
     @ [10, 10, 10, 10, 10, 10, 10, 10, 10, 10] @ py_str ''code'' @ [10]"

text \<open>A run of the script on a path that cannot be read.\<close>

definition missing_file_world :: world where
  "missing_file_world =
     \<lparr>argv = [py_str ''strip_license_header.py'', py_str ''missing.h''],
      read_text = (\<lambda>p. Inl FileNotFoundError),
      stdin_read = Inr [],
      stdout = []\<rparr>"

section \<open>The line splitter\<close>

lemma splitlines_Nil: "splitlines [] = []"
  by (simp add: splitlines.simps)

lemma splitlines_unfold:
  "s \<noteq> [] \<Longrightarrow> splitlines s =
     (case dropWhile (\<lambda>c. \<not> is_linebreak c) s of
        [] \<Rightarrow> [takeWhile (\<lambda>c. \<not> is_linebreak c) s]
      | [t] \<Rightarrow> [takeWhile (\<lambda>c. \<not> is_linebreak c) s @ [t]]
      | t # u # rest' \<Rightarrow>
          if t = 13 \<and> u = 10
          then (takeWhile (\<lambda>c. \<not> is_linebreak c) s @ [t, u]) # splitlines rest'
          else (takeWhile (\<lambda>c. \<not> is_linebreak c) s @ [t]) # splitlines (u # rest'))"
  by (subst splitlines.simps) (simp add: Let_def)

lemma splitlines_char:
  assumes "\<not> is_linebreak c"
  shows "splitlines (c # cs) = (case splitlines cs of [] \<Rightarrow> [[c]] | l # ls \<Rightarrow> (c # l) # ls)"
proof (cases cs)
  case Nil
  with assms show ?thesis
    by (simp add: splitlines_unfold [of "[c]"] splitlines_Nil)
next
  case (Cons d ds)
  then have ne: "cs \<noteq> []" by simp
  from assms have dw:
    "dropWhile (\<lambda>c. \<not> is_linebreak c) (c # cs) = dropWhile (\<lambda>c. \<not> is_linebreak c) cs"
    "takeWhile (\<lambda>c. \<not> is_linebreak c) (c # cs) = c # takeWhile (\<lambda>c. \<not> is_linebreak c) cs"
    by simp_all
  have L: "splitlines (c # cs) =
     (case dropWhile (\<lambda>c. \<not> is_linebreak c) cs of
        [] \<Rightarrow> [c # takeWhile (\<lambda>c. \<not> is_linebreak c) cs]
      | [t] \<Rightarrow> [(c # takeWhile (\<lambda>c. \<not> is_linebreak c) cs) @ [t]]
      | t # u # rest' \<Rightarrow>
          if t = 13 \<and> u = 10
          then ((c # takeWhile (\<lambda>c. \<not> is_linebreak c) cs) @ [t, u]) # splitlines rest'
          else ((c # takeWhile (\<lambda>c. \<not> is_linebreak c) cs) @ [t]) # splitlines (u # rest'))"
    using splitlines_unfold [of "c # cs"] unfolding dw by simp
  note R = splitlines_unfold [OF ne]
  show ?thesis
  proof (cases "dropWhile (\<lambda>c. \<not> is_linebreak c) cs")
    case Nil
    show ?thesis unfolding L R Nil by simp
  next
    case outer: (Cons t r)
    show ?thesis
    proof (cases r)
      case Nil
      show ?thesis unfolding L R outer Nil by simp
    next
      case (Cons u rest')
      show ?thesis unfolding L R outer Cons by simp
    qed
  qed
qed


lemma splitlines_crlf: "splitlines (13 # 10 # cs) = [13, 10] # splitlines cs"
  by (subst splitlines.simps) (simp add: is_linebreak_def)

lemma splitlines_break:
  "is_linebreak c \<Longrightarrow> \<not> (c = 13 \<and> take 1 cs = [10]) \<Longrightarrow> splitlines (c # cs) = [c] # splitlines cs"
  by (subst splitlines.simps) (auto simp: splitlines_Nil split: list.splits)

lemmas splitlines_eval = splitlines_Nil splitlines_crlf splitlines_break splitlines_char

lemma concat_splitlines: "concat (splitlines s) = s"
proof (induction s rule: induct_list012)
  case 1
  show ?case by (simp add: splitlines_Nil)
next
  case (2 x)
  show ?case by (cases "is_linebreak x") (simp_all add: splitlines_eval)
next
  case (3 x y zs)
  show ?case
  proof (cases "is_linebreak x")
    case False
    with 3 show ?thesis by (auto simp: splitlines_char split: list.splits)
  next
    case True
    show ?thesis
    proof (cases "x = 13 \<and> y = 10")
      case True
      with 3 show ?thesis by (simp add: splitlines_crlf)
    next
      case False
      with True 3 show ?thesis by (simp add: splitlines_break)
    qed
  qed
qed

lemma splitlines_nonempty: "[] \<notin> set (splitlines s)"
proof (induction s rule: induct_list012)
  case 1
  show ?case by (simp add: splitlines_Nil)
next
  case (2 x)
  show ?case by (cases "is_linebreak x") (simp_all add: splitlines_eval)
next
  case (3 x y zs)
  show ?case
  proof (cases "is_linebreak x")
    case False
    with 3 show ?thesis by (auto simp: splitlines_char split: list.splits)
  next
    case True
    show ?thesis
    proof (cases "x = 13 \<and> y = 10")
      case True
      with 3 show ?thesis by (simp add: splitlines_crlf)
    next
      case False
      with True 3 show ?thesis by (simp add: splitlines_break)
    qed
  qed
qed

text \<open>
  The lines behind the first \<open>n\<close> lines of a text are the lines of what is left of the
  text: cutting at a line boundary does not move any later boundary.
\<close>

lemma splitlines_tail:
  "splitlines s = l # ls \<Longrightarrow> splitlines (concat ls) = ls"
proof (induction s arbitrary: l ls)
  case Nil
  then show ?case by (simp add: splitlines_Nil)
next
  case (Cons c cs)
  show ?case
  proof (cases "is_linebreak c")
    case False
    show ?thesis
    proof (cases "splitlines cs")
      case Nil
      with False Cons.prems have "ls = []" by (simp add: splitlines_char)
      then show ?thesis by (simp add: splitlines_Nil)
    next
      case inner: (Cons l' ls')
      with False Cons.prems have "ls = ls'" by (simp add: splitlines_char)
      with Cons.IH [OF inner] show ?thesis by simp
    qed
  next
    case True
    show ?thesis
    proof (cases "c = 13 \<and> take 1 cs = [10]")
      case crlf: True
      then obtain cs' where cs: "cs = 10 # cs'" by (cases cs) auto
      with crlf Cons.prems have "ls = splitlines cs'" by (simp add: splitlines_crlf)
      then show ?thesis by (simp add: concat_splitlines)
    next
      case False
      with True Cons.prems have "ls = splitlines cs" by (simp add: splitlines_break)
      then show ?thesis by (simp add: concat_splitlines)
    qed
  qed
qed

lemma splitlines_drop:
  "splitlines (concat (drop n (splitlines s))) = drop n (splitlines s)"
proof (induction n arbitrary: s)
  case 0
  show ?case by (simp add: concat_splitlines)
next
  case (Suc n)
  show ?case
  proof (cases "splitlines s")
    case Nil
    then show ?thesis by (simp add: splitlines_Nil)
  next
    case (Cons l ls)
    from splitlines_tail [OF Cons] have t: "splitlines (concat ls) = ls" .
    from Suc [of "concat ls"] t Cons show ?thesis by simp
  qed
qed

section \<open>Substring tests\<close>

lemma startswith_iff_prefix: "startswith s p \<longleftrightarrow> prefix p s"
  by (auto simp: startswith_def prefix_def) (metis append_eq_conv_conj)

lemma contains_iff_sublist: "contains sub s \<longleftrightarrow> sublist sub s"
  by (induction s) (simp_all add: sublist_Cons_right startswith_iff_prefix)

lemma lstrip_decomp:
  "takeWhile is_space s @ lstrip s = s \<and> (lstrip s = [] \<or> \<not> is_space (hd (lstrip s)))"
proof -
  have "dropWhile is_space s = [] \<or> \<not> is_space (hd (dropWhile is_space s))"
    using hd_dropWhile [of is_space s] by blast
  then show ?thesis by (simp add: lstrip_def)
qed

text \<open>
  A line that starts with \<open>/**\<close> once its leading spaces and tabs are removed also does
  so once all its leading whitespace is removed; the converse fails (\<open>nbsp_banner\<close>).
\<close>

lemma spaces_tabs_trim_sufficient:
  assumes "startswith (lstrip_spaces_tabs l) (py_str ''/**'')"
  shows "startswith (lstrip l) (py_str ''/**'')"
proof -
  let ?Q = "\<lambda>c::nat. c = 32 \<or> c = 9"
  have l: "l = takeWhile ?Q l @ dropWhile ?Q l" by simp
  have sp: "\<And>x. x \<in> set (takeWhile ?Q l) \<Longrightarrow> is_space x"
    by (auto dest!: set_takeWhileD simp: is_space_def)
  have "dropWhile is_space l = dropWhile is_space (takeWhile ?Q l @ dropWhile ?Q l)"
    by simp
  also have "\<dots> = dropWhile is_space (dropWhile ?Q l)"
    using sp by (rule dropWhile_append2)
  finally have eq: "lstrip l = dropWhile is_space (lstrip_spaces_tabs l)"
    by (simp add: lstrip_def lstrip_spaces_tabs_def)
  from assms obtain r where r: "lstrip_spaces_tabs l = 47 # r"
    by (cases "lstrip_spaces_tabs l") (auto simp: startswith_def py_str_def)
  have "\<not> is_space 47" by (simp add: is_space_def)
  with r have "dropWhile is_space (lstrip_spaces_tabs l) = lstrip_spaces_tabs l" by simp
  with eq assms show ?thesis by simp
qed

section \<open>What the filter returns\<close>

lemma process_strips: "process d = (if strips d then concat (drop 12 (splitlines d)) else d)"
  by (simp add: process_def strips_def Let_def)

lemma split_at_12: "concat (take 12 (splitlines d)) @ concat (drop 12 (splitlines d)) = d"
proof -
  have "concat (take 12 (splitlines d)) @ concat (drop 12 (splitlines d))
        = concat (take 12 (splitlines d) @ drop 12 (splitlines d))"
    by (simp only: concat_append)
  also have "\<dots> = concat (splitlines d)"
    by (simp only: append_take_drop_id)
  finally show ?thesis by (simp only: concat_splitlines)
qed

lemma window_nonempty:
  assumes "12 \<le> length (splitlines d)"
  shows "concat (take 12 (splitlines d)) \<noteq> []"
proof (cases "splitlines d")
  case Nil
  with assms show ?thesis by simp
next
  case (Cons l ls)
  have "l \<in> set (splitlines d)" using Cons by simp
  then have "l \<noteq> []" using splitlines_nonempty [of d] by auto
  then show ?thesis using Cons by simp
qed

lemma drop12_shorter:
  assumes "12 \<le> length (splitlines d)"
  shows "concat (drop 12 (splitlines d)) \<noteq> d"
proof
  assume eq: "concat (drop 12 (splitlines d)) = d"
  have "length (concat (take 12 (splitlines d))) + length (concat (drop 12 (splitlines d)))
        = length d"
    using split_at_12 [of d] by (metis length_append)
  with eq have "concat (take 12 (splitlines d)) = []" by simp
  with window_nonempty [OF assms] show False by simp
qed

lemma strips_iff_changed: "strips d \<longleftrightarrow> process d \<noteq> d"
proof
  assume s: "strips d"
  then have "12 \<le> length (splitlines d)" by (simp add: strips_def Let_def)
  from drop12_shorter [OF this] s show "process d \<noteq> d" by (simp add: process_strips)
next
  assume "process d \<noteq> d"
  then show "strips d" by (simp add: process_strips split: if_splits)
qed

lemma splitlines_process:
  assumes "strips d"
  shows "splitlines (process d) = drop 12 (splitlines d)"
  using assms by (simp add: process_strips splitlines_drop)

text \<open>The equations that evaluate the filter on a concrete input.\<close>

lemmas process_eval = process_def strips_def Let_def splitlines_eval py_str_def is_linebreak_def
  is_space_def lstrip_def startswith_def

section \<open>The claims\<close>

text \<open>
  C1. For every input, the output of \<open>process\<close> is the input itself, or the input with its
  first 12 lines removed: in the second case the input has at least 12 lines, the output
  is the concatenation of the lines from index 12 on, and putting the first 12 lines back
  in front of the output gives the input again, so nothing else was changed.
\<close>

theorem C1_input_or_suffix:
  "process d = d \<or>
   (12 \<le> length (splitlines d)
    \<and> process d = concat (drop 12 (splitlines d))
    \<and> concat (take 12 (splitlines d)) @ process d = d)"
proof (cases "strips d")
  case False
  then show ?thesis by (simp add: process_strips)
next
  case True
  then have "12 \<le> length (splitlines d)" by (simp add: strips_def Let_def)
  moreover have "process d = concat (drop 12 (splitlines d))"
    using True by (simp add: process_strips)
  ultimately show ?thesis using split_at_12 [of d] by simp
qed

text \<open>
  C2. For every input with at least 12 lines whose first line, left-trimmed, starts with
  \<open>/**\<close> and whose first 12 lines, concatenated, contain \<open>Scenery Editor X\<close> and \<open>*/\<close>, the
  output of \<open>process\<close> is the concatenation of the lines from index 12 on, and it is the
  part of the input that follows the first 12 lines, terminators included.
\<close>

theorem C2_strip_drops_12_lines:
  assumes "12 \<le> length (splitlines d)"
    and "startswith (lstrip (splitlines d ! 0)) (py_str ''/**'')"
    and "contains (py_str ''Scenery Editor X'') (concat (take 12 (splitlines d)))"
    and "contains (py_str ''*/'') (concat (take 12 (splitlines d)))"
  shows "process d = concat (drop 12 (splitlines d))
         \<and> d = concat (take 12 (splitlines d)) @ process d"
proof -
  have "strips d" using assms by (simp add: strips_def Let_def)
  then have "process d = concat (drop 12 (splitlines d))" by (simp add: process_strips)
  then show ?thesis using split_at_12 [of d] by simp
qed

theorem C2_strip_drops_12_lines_witness:
  "12 \<le> length (splitlines scenario_A)
   \<and> startswith (lstrip (splitlines scenario_A ! 0)) (py_str ''/**'')
   \<and> contains (py_str ''Scenery Editor X'') (concat (take 12 (splitlines scenario_A)))
   \<and> contains (py_str ''*/'') (concat (take 12 (splitlines scenario_A)))
   \<and> process scenario_A
       = py_str ''int a;'' @ [10] @ py_str ''int b;'' @ [10] @ py_str ''int c;'' @ [10]"
proof -
  have h1: "12 \<le> length (splitlines scenario_A)"
    by (simp add: scenario_A_def banner_A_def process_eval)
  have h2: "startswith (lstrip (splitlines scenario_A ! 0)) (py_str ''/**'')"
    by (simp add: scenario_A_def banner_A_def process_eval)
  have h3: "contains (py_str ''Scenery Editor X'') (concat (take 12 (splitlines scenario_A)))"
    by (simp add: scenario_A_def banner_A_def process_eval)
  have h4: "contains (py_str ''*/'') (concat (take 12 (splitlines scenario_A)))"
    by (simp add: scenario_A_def banner_A_def process_eval)
  have r: "concat (drop 12 (splitlines scenario_A))
           = py_str ''int a;'' @ [10] @ py_str ''int b;'' @ [10] @ py_str ''int c;'' @ [10]"
    by (simp add: scenario_A_def banner_A_def process_eval)
  from C2_strip_drops_12_lines [OF h1 h2 h3 h4]
  have "process scenario_A = concat (drop 12 (splitlines scenario_A))" by (rule conjunct1)
  with r h1 h2 h3 h4 show ?thesis by (simp only: simp_thms)
qed

text \<open>
  C3. For every input with fewer than 12 lines the output of \<open>process\<close> is the input, and
  the output for the empty text is the empty text.
\<close>

theorem C3_short_input_unchanged:
  "(length (splitlines d) < 12 \<longrightarrow> process d = d) \<and> process [] = []"
  by (simp add: process_def Let_def splitlines_Nil)

theorem C3_short_input_unchanged_witness:
  "length (splitlines scenario_B) < 12 \<and> process scenario_B = scenario_B"
proof -
  have h: "length (splitlines scenario_B) < 12"
    by (simp add: scenario_B_def process_eval)
  from C3_short_input_unchanged [of scenario_B] h
  have "process scenario_B = scenario_B" by (simp only: simp_thms)
  with h show ?thesis by (simp only: simp_thms)
qed

text \<open>
  C4, as stated: the first line is trimmed of leading spaces and tabs only, and an input
  with at least 12 lines whose first line, trimmed that way, does not start with \<open>/**\<close>
  is returned unchanged. This fails: the first line of \<open>nbsp_banner\<close> starts with
  NO-BREAK SPACE, which \<open>str.lstrip\<close> removes, and the 12 lines are dropped.
\<close>

theorem C4_spaces_tabs_only_counterexample:
  "12 \<le> length (splitlines nbsp_banner)
   \<and> \<not> startswith (lstrip_spaces_tabs (splitlines nbsp_banner ! 0)) (py_str ''/**'')
   \<and> process nbsp_banner = py_str ''rest''
   \<and> process nbsp_banner \<noteq> nbsp_banner"
  by (simp add: nbsp_banner_def lstrip_spaces_tabs_def process_eval)

text \<open>
  C4, amended. The first line is trimmed of all its leading whitespace in the sense of
  \<open>str.isspace\<close> (space and tab, and also U+001F, U+00A0, U+1680, U+2000 to U+200A,
  U+202F, U+205F and U+3000), from the start only; an input with at least 12 lines whose
  first line, trimmed that way, does not start with \<open>/**\<close> is returned unchanged.
\<close>

theorem C4_first_line_check:
  assumes "12 \<le> length (splitlines d)"
    and "\<not> startswith (lstrip (splitlines d ! 0)) (py_str ''/**'')"
  shows "process d = d"
  using assms by (simp add: process_def Let_def)

theorem C4_first_line_check_witness:
  "12 \<le> length (splitlines line_comment_input)
   \<and> \<not> startswith (lstrip (splitlines line_comment_input ! 0)) (py_str ''/**'')
   \<and> process line_comment_input = line_comment_input"
proof -
  have h1: "12 \<le> length (splitlines line_comment_input)"
    by (simp add: line_comment_input_def process_eval)
  have h2: "\<not> startswith (lstrip (splitlines line_comment_input ! 0)) (py_str ''/**'')"
    by (simp add: line_comment_input_def process_eval)
  from C4_first_line_check [OF h1 h2] h1 h2 show ?thesis by (simp only: simp_thms)
qed



text \<open>
  C6, as stated: whenever \<open>process\<close> strips, a second application returns its own result
  unchanged, because the stripped output lacks the banner. This fails when a second banner
  follows the first: \<open>double_banner\<close> is two 12-line banners and \<open>x\<close>; the first
  application removes one banner and the second application removes the other.
\<close>

theorem C6_second_banner_counterexample:
  "process double_banner \<noteq> double_banner
   \<and> process double_banner = short_banner @ py_str ''x''
   \<and> process (process double_banner) = py_str ''x''
   \<and> process (process double_banner) \<noteq> process double_banner"
proof -
  have a: "process double_banner = short_banner @ py_str ''x''"
    by (simp add: double_banner_def short_banner_def process_eval)
  have b: "process (short_banner @ py_str ''x'') = py_str ''x''"
    by (simp add: short_banner_def process_eval)
  have c: "short_banner @ py_str ''x'' \<noteq> double_banner"
    by (simp add: double_banner_def short_banner_def py_str_def)
  have d: "py_str ''x'' \<noteq> short_banner @ py_str ''x''"
    by (simp add: short_banner_def py_str_def)
  from a b c d show ?thesis by (simp only: simp_thms)
qed

text \<open>
  C6, amended. For every input on which \<open>process\<close> strips, the lines of the stripped
  output are the lines of the input from index 12 on, and the second application returns
  its own result unchanged exactly when the stripped output does not itself meet the strip
  condition (at least 12 lines, first line left-trimmed starting with \<open>/**\<close>, both
  substrings in its first 12 lines); when it does, the second application removes 12 more
  lines: the input has at least 24 lines, the second output is the concatenation of the
  input's lines from index 24 on, and the first output is the input's lines 12 to 23
  followed by the second output.
\<close>

theorem C6_second_application:
  assumes "strips d"
  shows "splitlines (process d) = drop 12 (splitlines d)
         \<and> (process (process d) = process d) = (\<not> strips (process d))
         \<and> (strips (process d) \<longrightarrow>
              24 \<le> length (splitlines d)
              \<and> process (process d) = concat (drop 24 (splitlines d))
              \<and> process d = concat (take 12 (drop 12 (splitlines d))) @ process (process d))"
proof -
  have l: "splitlines (process d) = drop 12 (splitlines d)"
    using assms by (rule splitlines_process)
  have i: "(process (process d) = process d) = (\<not> strips (process d))"
    using strips_iff_changed [of "process d"] by blast
  have s: "24 \<le> length (splitlines d)
           \<and> process (process d) = concat (drop 24 (splitlines d))
           \<and> process d = concat (take 12 (drop 12 (splitlines d))) @ process (process d)"
    if again: "strips (process d)"
  proof -
    from again have "12 \<le> length (splitlines (process d))"
      by (simp add: strips_def Let_def)
    then have len: "24 \<le> length (splitlines d)" by (simp add: l)
    have pp: "process (process d) = concat (drop 12 (splitlines (process d)))"
      using again by (simp add: process_strips)
    then have pp': "process (process d) = concat (drop 24 (splitlines d))"
      by (simp add: l)
    from split_at_12 [of "process d"] pp
    have "process d = concat (take 12 (splitlines (process d))) @ process (process d)"
      by simp
    then have "process d = concat (take 12 (drop 12 (splitlines d))) @ process (process d)"
      by (simp only: l)
    with len pp' show ?thesis by (simp only: simp_thms)
  qed
  from l i s show ?thesis by blast
qed

theorem C6_second_application_witness:
  "strips scenario_A \<and> \<not> strips (process scenario_A)
   \<and> process (process scenario_A) = process scenario_A
   \<and> strips double_banner \<and> strips (process double_banner)
   \<and> 24 \<le> length (splitlines double_banner)
   \<and> process (process double_banner) = concat (drop 24 (splitlines double_banner))
   \<and> process (process double_banner) = py_str ''x''"
proof -
  have hA: "strips scenario_A"
    by (simp add: scenario_A_def banner_A_def process_eval)
  have pA: "process scenario_A
            = py_str ''int a;'' @ [10] @ py_str ''int b;'' @ [10] @ py_str ''int c;'' @ [10]"
    by (simp add: scenario_A_def banner_A_def process_eval)
  have nA: "\<not> strips (process scenario_A)"
    unfolding pA by (simp add: process_eval)
  have hD: "strips double_banner"
    by (simp add: double_banner_def short_banner_def process_eval)
  have pD: "process double_banner = short_banner @ py_str ''x''"
    by (simp add: double_banner_def short_banner_def process_eval)
  have sD: "strips (process double_banner)"
    unfolding pD by (simp add: short_banner_def process_eval)
  have r: "concat (drop 24 (splitlines double_banner)) = py_str ''x''"
    by (simp add: double_banner_def short_banner_def process_eval)
  from C6_second_application [OF hA] nA
  have iA: "process (process scenario_A) = process scenario_A" by blast
  from C6_second_application [OF hD] sD
  have iD: "24 \<le> length (splitlines double_banner)
            \<and> process (process double_banner) = concat (drop 24 (splitlines double_banner))"
    by blast
  then have xD: "process (process double_banner) = py_str ''x''" using r by simp
  from hA nA iA hD sD iD xD show ?thesis by (simp only: simp_thms)
qed

text \<open>
  C7. The decision reads the first 12 lines only: two inputs with at least 12 lines each
  and the same first 12 lines are both stripped or both returned unchanged.
\<close>

theorem C7_decision_from_first_12_lines:
  assumes "12 \<le> length (splitlines a)"
    and "12 \<le> length (splitlines b)"
    and "take 12 (splitlines a) = take 12 (splitlines b)"
  shows "(strips a \<longleftrightarrow> strips b) \<and> (process a = a \<longleftrightarrow> process b = b)"
proof -
  have "splitlines a ! 0 = take 12 (splitlines a) ! 0" by simp
  also have "\<dots> = take 12 (splitlines b) ! 0" by (simp only: assms(3))
  also have "\<dots> = splitlines b ! 0" by simp
  finally have first: "splitlines a ! 0 = splitlines b ! 0" .
  have s: "strips a \<longleftrightarrow> strips b"
    using assms by (simp add: strips_def Let_def first)
  then show ?thesis
    using strips_iff_changed [of a] strips_iff_changed [of b] by blast
qed

theorem C7_decision_from_first_12_lines_witness:
  "12 \<le> length (splitlines scenario_A)
   \<and> 12 \<le> length (splitlines scenario_A_other)
   \<and> take 12 (splitlines scenario_A) = take 12 (splitlines scenario_A_other)
   \<and> (strips scenario_A \<longleftrightarrow> strips scenario_A_other)
   \<and> (process scenario_A = scenario_A \<longleftrightarrow> process scenario_A_other = scenario_A_other)"
proof -
  have h1: "12 \<le> length (splitlines scenario_A)"
    by (simp add: scenario_A_def banner_A_def process_eval)
  have h2: "12 \<le> length (splitlines scenario_A_other)"
    by (simp add: scenario_A_other_def banner_A_def process_eval)
  have h3: "take 12 (splitlines scenario_A) = take 12 (splitlines scenario_A_other)"
    by (simp add: scenario_A_def scenario_A_other_def banner_A_def process_eval)
  from C7_decision_from_first_12_lines [OF h1 h2 h3] h1 h2 h3
  show ?thesis by (simp only: simp_thms)
qed

text \<open>
  C8. When a path is given on the command line and reading the file raises an exception
  (a missing file, a refused permission, any other \<open>Exception\<close>), \<open>_read_input\<close> returns
  the empty text; \<open>main\<close> then writes \<open>process ""\<close>, which is the empty text, to standard
  output and returns normally.
\<close>

theorem C8_read_failure_gives_empty_text:
  assumes "1 < length (argv w)"
    and "read_text w (argv w ! 1) = Inl e"
    and "is_Exception e"
  shows "read_input w = Inr []
         \<and> main w = (Inr (), w\<lparr>stdout := stdout w @ process []\<rparr>)
         \<and> process [] = []"
  using assms by (simp add: read_input_def main_def process_def Let_def splitlines_Nil)

theorem C8_read_failure_gives_empty_text_witness:
  "1 < length (argv missing_file_world)
   \<and> read_text missing_file_world (argv missing_file_world ! 1) = Inl FileNotFoundError
   \<and> is_Exception FileNotFoundError
   \<and> read_input missing_file_world = Inr []
   \<and> fst (main missing_file_world) = Inr ()
   \<and> stdout (snd (main missing_file_world)) = []"
proof -
  have h1: "1 < length (argv missing_file_world)"
    by (simp add: missing_file_world_def)
  have h2: "read_text missing_file_world (argv missing_file_world ! 1) = Inl FileNotFoundError"
    by (simp add: missing_file_world_def)
  have h3: "is_Exception FileNotFoundError" by simp
  have o: "stdout missing_file_world = []" by (simp add: missing_file_world_def)
  from C8_read_failure_gives_empty_text [OF h1 h2 h3] h1 h2 h3 o
  show ?thesis by simp
qed

text \<open>
  C9. There is an input with fewer than 12 LF characters and no CR that \<open>process\<close>
  changes: FORM FEED, VERTICAL TAB, U+2028 and U+2029 are line boundaries for the line
  splitter, and \<open>ff_banner\<close>, which has no LF and no CR at all, has 13 lines and loses
  the first 12.
\<close>

theorem C9_other_terminators_count_as_lines:
  "count_list ff_banner 10 < 12
   \<and> 13 \<notin> set ff_banner
   \<and> is_linebreak 12 \<and> is_linebreak 11 \<and> is_linebreak 8232 \<and> is_linebreak 8233
   \<and> length (splitlines ff_banner) = 13
   \<and> process ff_banner = py_str ''rest''
   \<and> process ff_banner \<noteq> ff_banner"
  by (simp add: ff_banner_def process_eval)

text \<open>
  C10. The closing \<open>*/\<close> may overlap the opening \<open>/**\<close>: \<open>overlap_banner\<close> has at least 12
  lines, its first line is \<open>/**/\<close> and a newline, its first 12 lines contain
  \<open>Scenery Editor X\<close> and no \<open>*/\<close> behind the third character of the first line, and
  \<open>process\<close> strips its first 12 lines.
\<close>

theorem C10_closer_overlaps_opener:
  "12 \<le> length (splitlines overlap_banner)
   \<and> splitlines overlap_banner ! 0 = py_str ''/**/'' @ [10]
   \<and> contains (py_str ''Scenery Editor X'') (concat (take 12 (splitlines overlap_banner)))
   \<and> \<not> contains (py_str ''*/'') (drop 3 (concat (take 12 (splitlines overlap_banner))))
   \<and> process overlap_banner = py_str ''code'' @ [10]
   \<and> process overlap_banner \<noteq> overlap_banner"
  by (simp add: overlap_banner_def process_eval)


end
